theory Spec2Isabelle
  imports Complex_Main "HOL-Library.Word" "HOL-Library.Sublist"
begin

section \<open>JavaScript values\<close>

text \<open>
  A JavaScript string is a sequence of UTF-16 code units. The regular expressions of the
  tool carry no \<open>u\<close> flag, so they and \<open>trim\<close> work on code units; every character they
  mention lies in the Basic Multilingual Plane and is one code unit.
\<close>

type_synonym jschar = "16 word"
type_synonym jsstring = "jschar list"

text \<open>An ASCII literal of the source, as code units.\<close>

definition js :: "string \<Rightarrow> jsstring" where
  "js s = map of_char s"

text \<open>
  ECMAScript WhiteSpace and LineTerminator: the characters matched by \<open>\s\<close> and
  stripped by \<open>String.prototype.trim\<close>.
\<close>

definition isWhiteSpace :: "jschar \<Rightarrow> bool" where
  "isWhiteSpace c \<longleftrightarrow>
     c = 0x09 \<or> c = 0x0A \<or> c = 0x0B \<or> c = 0x0C \<or> c = 0x0D \<or> c = 0x20 \<or> c = 0xA0 \<or>
     c = 0x1680 \<or> (0x2000 \<le> c \<and> c \<le> 0x200A) \<or> c = 0x2028 \<or> c = 0x2029 \<or>
     c = 0x202F \<or> c = 0x205F \<or> c = 0x3000 \<or> c = 0xFEFF"

text \<open>\<open>s.trim()\<close>\<close>

definition trim :: "jsstring \<Rightarrow> jsstring" where
  "trim s = rev (dropWhile isWhiteSpace (rev (dropWhile isWhiteSpace s)))"

text \<open>
  A JavaScript number. The finite doubles are rationals; the model takes every rational
  as a finite value and does not tell \<open>-0\<close> from \<open>0\<close>. The tool only compares numbers
  (\<open>Math.min\<close>, \<open>Math.max\<close>), which is exact.
\<close>

datatype jsnumber = NaN | Infinity | NegInfinity | Finite rat

definition Number_isNaN :: "jsnumber \<Rightarrow> bool" where
  "Number_isNaN v = (case v of NaN \<Rightarrow> True | _ \<Rightarrow> False)"

definition Number_isFinite :: "jsnumber \<Rightarrow> bool" where
  "Number_isFinite v = (case v of Finite _ \<Rightarrow> True | _ \<Rightarrow> False)"

fun Math_max :: "jsnumber \<Rightarrow> jsnumber \<Rightarrow> jsnumber" where
  "Math_max NaN _ = NaN"
| "Math_max _ NaN = NaN"
| "Math_max Infinity _ = Infinity"
| "Math_max _ Infinity = Infinity"
| "Math_max NegInfinity b = b"
| "Math_max a NegInfinity = a"
| "Math_max (Finite a) (Finite b) = Finite (max a b)"

fun Math_min :: "jsnumber \<Rightarrow> jsnumber \<Rightarrow> jsnumber" where
  "Math_min NaN _ = NaN"
| "Math_min _ NaN = NaN"
| "Math_min NegInfinity _ = NegInfinity"
| "Math_min _ NegInfinity = NegInfinity"
| "Math_min Infinity b = b"
| "Math_min a Infinity = a"
| "Math_min (Finite a) (Finite b) = Finite (min a b)"

text \<open>\<open>s.startsWith(p)\<close>\<close>

definition startsWith :: "jsstring \<Rightarrow> jsstring \<Rightarrow> bool" where
  "startsWith s p \<longleftrightarrow> take (length p) s = p"

text \<open>
  A thrown value: \<open>Error m\<close> is an instance of \<open>Error\<close> (or of a subclass such as
  \<open>TypeError\<close>) with message \<open>m\<close>; \<open>Thrown\<close> is any thrown value that is not.
\<close>

datatype exn = Error string | Thrown

text \<open>
  The values \<open>response.json()\<close> produces. The list of an object holds its own
  properties; it is read through \<open>map_of\<close>, so the value of a key is that of its first
  entry.
\<close>

datatype json =
    JNull
  | JBool bool
  | JNum jsnumber
  | JStr jsstring
  | JArr "json list"
  | JObj "(jsstring \<times> json) list"

text \<open>
  The keys that name an element of an array or a code unit of a string: the decimal
  numerals without a leading zero. (The upper bounds on such indices exceed every
  possible length and are not modelled.)
\<close>

definition isDigit :: "jschar \<Rightarrow> bool" where
  "isDigit c \<longleftrightarrow> 0x30 \<le> c \<and> c \<le> 0x39"

definition digitsValue :: "jsstring \<Rightarrow> nat" where
  "digitsValue ds = foldl (\<lambda>n c. 10 * n + (unat c - 48)) 0 ds"

definition arrayIndex :: "jsstring \<Rightarrow> nat option" where
  "arrayIndex k =
     (if k \<noteq> [] \<and> list_all isDigit k \<and> (hd k \<noteq> 0x30 \<or> length k = 1)
      then Some (digitsValue k) else None)"

text \<open>
  \<open>source[key]\<close> for a string key. \<open>Inr None\<close> is \<open>undefined\<close>; reading a property of
  \<open>null\<close> throws a \<open>TypeError\<close>. A key that is not an own property is looked up in the
  standard prototypes, whose members are functions and objects, never JSON data and
  never strings: such a read is \<open>Inr None\<close> here as well. Arrays and strings have their
  indexed elements and \<open>length\<close>.
\<close>

fun getProp :: "json \<Rightarrow> jsstring \<Rightarrow> exn + json option" where
  "getProp JNull key = Inl (Error ''Cannot read properties of null'')"
| "getProp (JBool b) key = Inr None"
| "getProp (JNum n) key = Inr None"
| "getProp (JStr s) key =
     Inr (case arrayIndex key of
            Some i \<Rightarrow> if i < length s then Some (JStr [s ! i]) else None
          | None \<Rightarrow>
              if key = js ''length'' then Some (JNum (Finite (of_nat (length s)))) else None)"
| "getProp (JArr xs) key =
     Inr (case arrayIndex key of
            Some i \<Rightarrow> if i < length xs then Some (xs ! i) else None
          | None \<Rightarrow>
              if key = js ''length'' then Some (JNum (Finite (of_nat (length xs)))) else None)"
| "getProp (JObj kvs) key = Inr (map_of kvs key)"

section \<open>The provider client (viduClient.ts)\<close>

definition DEFAULT_VIDU_ENDPOINT :: jsstring where
  "DEFAULT_VIDU_ENDPOINT = js ''https://api.vidu.com/v1/videos''"

datatype ViduVideoStatus = queued | completed | failed

record CreateViduVideoOptions =
  opt_prompt :: jsstring
  opt_durationSeconds :: jsnumber
  opt_aspectRatio :: jsstring
  opt_style :: "jsstring option"
  opt_referenceImageUrl :: "jsstring option"

text \<open>
  An optional field that the returned object literal does not mention is \<open>None\<close>.
  \<open>rawResponse\<close> holds a JSON value or \<open>undefined\<close> (\<open>None\<close>).
\<close>

record ViduVideoResult =
  videoUrl :: jsstring
  status :: ViduVideoStatus
  previewImageUrl :: "jsstring option"
  jobId :: "jsstring option"
  rawResponse :: "json option"

text \<open>\<open>process.env\<close>\<close>

record env =
  VIDU_API_KEY :: "jsstring option"
  VIDU_API_URL :: "jsstring option"

text \<open>
  The call \<open>fetch(endpoint, {method, headers, body})\<close>. \<open>request_body\<close> is the payload
  that \<open>JSON.stringify\<close> serialises.
\<close>

record request =
  request_url :: jsstring
  request_method :: string
  request_headers :: "(string \<times> jsstring) list"
  request_body :: json

text \<open>
  The \<open>Response\<close> that \<open>fetch\<close> resolves to. \<open>response_json\<close> is the outcome of
  \<open>response.json()\<close>: \<open>None\<close> when it throws.
\<close>

record response =
  response_status :: nat
  response_statusText :: jsstring
  response_json :: "json option"

text \<open>\<open>response.ok\<close>: the status is in the range 200 to 299.\<close>

definition response_ok :: "response \<Rightarrow> bool" where
  "response_ok r \<longleftrightarrow> 200 \<le> response_status r \<and> response_status r \<le> 299"

text \<open>
  What a call did to the outside: the requests handed to \<open>fetch\<close>, in order, and the
  failures written with \<open>console.error\<close> (status and status text).
\<close>

record effects =
  requests :: "request list"
  logged :: "(nat \<times> jsstring) list"

definition no_effects :: effects where
  "no_effects = \<lparr>requests = [], logged = []\<rparr>"

subsection \<open>extractString\<close>

fun extractString :: "json \<Rightarrow> jsstring list \<Rightarrow> exn + jsstring" where
  "extractString source [] = Inr []"
| "extractString source (key # keys) =
     (case getProp source key of
        Inl e \<Rightarrow> Inl e
      | Inr (Some (JStr v)) \<Rightarrow>
          if length (trim v) > 0 then Inr v else extractString source keys
      | Inr _ \<Rightarrow> extractString source keys)"

subsection \<open>createViduVideo\<close>

text \<open>
  The local constants \<open>endpoint\<close>, \<open>payload\<close> and \<open>parsed\<close> of the function, as
  functions of what they are computed from.
\<close>

text \<open>\<open>process.env.VIDU_API_URL?.trim() || DEFAULT_VIDU_ENDPOINT\<close>\<close>

definition endpoint :: "env \<Rightarrow> jsstring" where
  "endpoint environment =
     (case VIDU_API_URL environment of
        None \<Rightarrow> DEFAULT_VIDU_ENDPOINT
      | Some u \<Rightarrow> if trim u = [] then DEFAULT_VIDU_ENDPOINT else trim u)"

text \<open>
  The three fixed fields, then \<open>style\<close> when the trimmed style is not empty, then
  \<open>reference_image_url\<close> when the URL is not empty.
\<close>

definition payload :: "CreateViduVideoOptions \<Rightarrow> (jsstring \<times> json) list" where
  "payload options =
     [(js ''prompt'', JStr (opt_prompt options)),
      (js ''duration'', JNum (opt_durationSeconds options)),
      (js ''aspect_ratio'', JStr (opt_aspectRatio options))]
     @ (case opt_style options of
          None \<Rightarrow> []
        | Some s \<Rightarrow> if trim s = [] then [] else [(js ''style'', JStr (trim s))])
     @ (case opt_referenceImageUrl options of
          None \<Rightarrow> []
        | Some u \<Rightarrow> if u = [] then [] else [(js ''reference_image_url'', JStr u)])"

text \<open>\<open>responseBody ?? {}\<close>: \<open>undefined\<close> and \<open>null\<close> become the empty object.\<close>

definition parsed :: "json option \<Rightarrow> json" where
  "parsed responseBody =
     (case responseBody of
        None \<Rightarrow> JObj []
      | Some JNull \<Rightarrow> JObj []
      | Some v \<Rightarrow> v)"

text \<open>
  The platform is a parameter: \<open>toLowerCase\<close> is \<open>String.prototype.toLowerCase\<close> and
  \<open>fetch\<close> answers a request with a response or rejects. The result is what the promise
  settles to (\<open>Inl\<close>: rejected) together with the effects of the call.
\<close>

definition createViduVideo ::
  "(jsstring \<Rightarrow> jsstring) \<Rightarrow> env \<Rightarrow> (request \<Rightarrow> exn + response) \<Rightarrow>
   CreateViduVideoOptions \<Rightarrow> (exn + ViduVideoResult) \<times> effects" where
  "createViduVideo toLowerCase environment fetch options =
     (case VIDU_API_KEY environment of
        None \<Rightarrow> (Inl (Error ''VIDU_API_KEY is not set in the environment''), no_effects)
      | Some apiKey \<Rightarrow>
          if apiKey = [] then
            (Inl (Error ''VIDU_API_KEY is not set in the environment''), no_effects)
          else
            let req =
                  \<lparr>request_url = endpoint environment,
                   request_method = ''POST'',
                   request_headers =
                     [(''Content-Type'', js ''application/json''),
                      (''Authorization'', js ''Bearer '' @ apiKey)],
                   request_body = JObj (payload options)\<rparr>
            in
            (case fetch req of
               Inl e \<Rightarrow> (Inl e, \<lparr>requests = [req], logged = []\<rparr>)
             | Inr resp \<Rightarrow>
                 let responseBody = response_json resp in
                 if \<not> response_ok resp then
                   (Inr \<lparr>videoUrl = [], status = failed, previewImageUrl = None,
                         jobId = None, rawResponse = responseBody\<rparr>,
                    \<lparr>requests = [req],
                     logged = [(response_status resp, response_statusText resp)]\<rparr>)
                 else
                   let body = parsed responseBody;
                       sent = \<lparr>requests = [req], logged = []\<rparr>
                   in
                   (case extractString body
                           [js ''video_url'', js ''videoUrl'', js ''output_url'',
                            js ''outputUrl''] of
                      Inl e \<Rightarrow> (Inl e, sent)
                    | Inr url \<Rightarrow>
                   (case extractString body
                           [js ''preview_image_url'', js ''previewImageUrl'',
                            js ''thumbnail_url'', js ''thumbnail''] of
                      Inl e \<Rightarrow> (Inl e, sent)
                    | Inr preview \<Rightarrow>
                   (case extractString body [js ''job_id'', js ''jobId'', js ''id''] of
                      Inl e \<Rightarrow> (Inl e, sent)
                    | Inr job \<Rightarrow>
                   (case extractString body [js ''status''] of
                      Inl e \<Rightarrow> (Inl e, sent)
                    | Inr rawStatus \<Rightarrow>
                        let st =
                              (if rawStatus \<noteq> [] then
                                 (let normalized = toLowerCase rawStatus in
                                  if startsWith normalized (js ''complete'') then completed
                                  else if startsWith normalized (js ''fail'')
                                          \<or> normalized = js ''error'' then failed
                                  else queued)
                               else if url \<noteq> [] then completed
                               else queued)
                        in
                        (Inr \<lparr>videoUrl = url, status = st, previewImageUrl = Some preview,
                              jobId = Some job, rawResponse = Some body\<rparr>,
                         sent)))))))"

section \<open>The tool: input normalisation (generateViduVideo.ts)\<close>

definition MIN_DURATION_SECONDS :: jsnumber where
  "MIN_DURATION_SECONDS = Finite 1"

definition MAX_DURATION_SECONDS :: jsnumber where
  "MAX_DURATION_SECONDS = Finite 8"

definition DEFAULT_DURATION_SECONDS :: jsnumber where
  "DEFAULT_DURATION_SECONDS = Finite 4"

definition DEFAULT_ASPECT_RATIO :: jsstring where
  "DEFAULT_ASPECT_RATIO = js ''16:9''"

subsection \<open>cleanPromptForVidu\<close>

text \<open>\<open>.replace(/[\u2028\u2029]/g, " ")\<close>\<close>

definition replaceSeparators :: "jsstring \<Rightarrow> jsstring" where
  "replaceSeparators raw = map (\<lambda>c. if c = 0x2028 \<or> c = 0x2029 then 0x20 else c) raw"

text \<open>
  \<open>.replace(/\r?\n/g, " ")\<close>: scanning from the left, a CR directly before an LF is
  replaced together with it, an LF alone is replaced, and a CR that no LF follows stays.
\<close>

fun replaceNewlines :: "jsstring \<Rightarrow> jsstring" where
  "replaceNewlines [] = []"
| "replaceNewlines [c] = (if c = 0x0A then [0x20] else [c])"
| "replaceNewlines (c # d # cs) =
     (if c = 0x0D \<and> d = 0x0A then 0x20 # replaceNewlines cs
      else if c = 0x0A then 0x20 # replaceNewlines (d # cs)
      else c # replaceNewlines (d # cs))"

text \<open>\<open>.replace(/\s+/g, " ")\<close>: every maximal run of white space becomes one space.\<close>

function collapseWhitespace :: "jsstring \<Rightarrow> jsstring" where
  "collapseWhitespace [] = []"
| "collapseWhitespace (c # cs) =
     (if isWhiteSpace c then 0x20 # collapseWhitespace (dropWhile isWhiteSpace cs)
      else c # collapseWhitespace cs)"
  by pat_completeness auto
termination
  by (relation "measure length") (auto simp: length_dropWhile_le less_Suc_eq_le)

definition cleanPromptForVidu :: "jsstring \<Rightarrow> jsstring" where
  "cleanPromptForVidu raw =
     trim (collapseWhitespace (replaceNewlines (replaceSeparators raw)))"

subsection \<open>clampDuration\<close>

text \<open>
  The argument is \<open>value?: number\<close>; \<open>None\<close> is \<open>undefined\<close>, the only value of the
  parameter's type for which \<open>typeof value !== "number"\<close>.
\<close>

definition clampDuration :: "jsnumber option \<Rightarrow> jsnumber" where
  "clampDuration v =
     (case v of
        None \<Rightarrow> DEFAULT_DURATION_SECONDS
      | Some x \<Rightarrow>
          if Number_isNaN x \<or> \<not> Number_isFinite x then DEFAULT_DURATION_SECONDS
          else Math_min MAX_DURATION_SECONDS (Math_max MIN_DURATION_SECONDS x))"

subsection \<open>resolvePrompt\<close>

text \<open>The fields of the tool's input; \<open>None\<close> is an absent field.\<close>

record GenerateViduVideoInput =
  prompt :: "jsstring option"
  promptBase64 :: "jsstring option"
  durationSeconds :: "jsnumber option"
  aspectRatio :: "jsstring option"
  style :: "jsstring option"
  referenceImageUrl :: "jsstring option"

text \<open>
  The schema's constraint on \<open>promptBase64\<close>, which the hosting framework checks before
  the tool runs: when the field is present it matches \<open>/^[A-Za-z0-9+/=]+$/\<close>.
\<close>

definition isBase64Char :: "jschar \<Rightarrow> bool" where
  "isBase64Char c \<longleftrightarrow>
     (0x41 \<le> c \<and> c \<le> 0x5A) \<or> (0x61 \<le> c \<and> c \<le> 0x7A) \<or> (0x30 \<le> c \<and> c \<le> 0x39)
     \<or> c = 0x2B \<or> c = 0x2F \<or> c = 0x3D"

definition schema_promptBase64 :: "GenerateViduVideoInput \<Rightarrow> bool" where
  "schema_promptBase64 input =
     (case promptBase64 input of
        None \<Rightarrow> True
      | Some b \<Rightarrow> b \<noteq> [] \<and> list_all isBase64Char b)"

text \<open>
  \<open>decode\<close> stands for \<open>Buffer.from(s, "base64").toString("utf8")\<close>, a parameter. The
  \<open>try\<close> block covers the decoding and the check of the decoded text, so the error
  of that check is caught and wrapped as well.
\<close>

definition resolvePrompt ::
  "(jsstring \<Rightarrow> exn + jsstring) \<Rightarrow> GenerateViduVideoInput \<Rightarrow> exn + jsstring" where
  "resolvePrompt decode input =
     (let plain =
            (case prompt input of
               None \<Rightarrow> Inl (Error ''Provide either promptBase64 or prompt.'')
             | Some p \<Rightarrow>
                 if length (trim p) > 0 then Inr p
                 else Inl (Error ''Provide either promptBase64 or prompt.''))
      in
      case promptBase64 input of
        None \<Rightarrow> plain
      | Some b \<Rightarrow>
          if b = [] then plain
          else
            (case (case decode b of
                     Inl e \<Rightarrow> Inl e
                   | Inr decoded \<Rightarrow>
                       if length (trim decoded) = 0
                       then Inl (Error ''promptBase64 decoded to an empty string'')
                       else Inr decoded) of
               Inr decoded \<Rightarrow> Inr decoded
             | Inl e \<Rightarrow>
                 Inl (Error (''Failed to decode promptBase64. Ensure it is valid base64. ''
                             @ (case e of Error m \<Rightarrow> m | Thrown \<Rightarrow> [])))))"

subsection \<open>generateViduVideo\<close>

definition generateViduVideo ::
  "(jsstring \<Rightarrow> exn + jsstring) \<Rightarrow> (jsstring \<Rightarrow> jsstring) \<Rightarrow> env \<Rightarrow>
   (request \<Rightarrow> exn + response) \<Rightarrow> GenerateViduVideoInput \<Rightarrow>
   (exn + ViduVideoResult) \<times> effects" where
  "generateViduVideo decode toLowerCase environment fetch input =
     (case resolvePrompt decode input of
        Inl e \<Rightarrow> (Inl e, no_effects)
      | Inr rawPrompt \<Rightarrow>
          let p = cleanPromptForVidu rawPrompt in
          if p = [] then (Inl (Error ''Prompt cannot be empty''), no_effects)
          else
            createViduVideo toLowerCase environment fetch
              \<lparr>opt_prompt = p,
               opt_durationSeconds = clampDuration (durationSeconds input),
               opt_aspectRatio =
                 (case aspectRatio input of None \<Rightarrow> DEFAULT_ASPECT_RATIO | Some a \<Rightarrow> a),
               opt_style =
                 (case style input of
                    None \<Rightarrow> None
                  | Some t \<Rightarrow> if trim t = [] then None else Some (trim t)),
               opt_referenceImageUrl =
                 (case referenceImageUrl input of
                    None \<Rightarrow> None
                  | Some u \<Rightarrow> if trim u = [] then None else Some (trim u))\<rparr>)"

section \<open>Platform functions for running the model\<close>

text \<open>
  The statements below hold for every \<open>toLowerCase\<close>, \<open>decode\<close> and \<open>fetch\<close>. To run
  the model on concrete inputs, these are the platform functions on ASCII text.
\<close>

text \<open>\<open>String.prototype.toLowerCase\<close> on the ASCII letters; other code units are kept.\<close>

definition toLowerCaseAscii :: "jsstring \<Rightarrow> jsstring" where
  "toLowerCaseAscii s = map (\<lambda>c. if 0x41 \<le> c \<and> c \<le> 0x5A then c + 0x20 else c) s"

text \<open>
  Base64 decoding of an ASCII payload, as \<open>Buffer\<close> does it: characters outside the
  alphabet (white space among them) are skipped, decoding stops at the padding, and
  the URL-safe letters are accepted. A byte above 127 reads as U+FFFD.
\<close>

definition sextet :: "jschar \<Rightarrow> nat option" where
  "sextet c =
     (if 0x41 \<le> c \<and> c \<le> 0x5A then Some (unat c - 0x41)
      else if 0x61 \<le> c \<and> c \<le> 0x7A then Some (unat c - 0x61 + 26)
      else if 0x30 \<le> c \<and> c \<le> 0x39 then Some (unat c - 0x30 + 52)
      else if c = 0x2B \<or> c = 0x2D then Some 62
      else if c = 0x2F \<or> c = 0x5F then Some 63
      else None)"

fun sextetsToBytes :: "nat list \<Rightarrow> nat list" where
  "sextetsToBytes (a # b # c # d # rest) =
     (a * 4 + b div 16) # ((b mod 16) * 16 + c div 4) # ((c mod 4) * 64 + d)
       # sextetsToBytes rest"
| "sextetsToBytes [a, b, c] = [a * 4 + b div 16, (b mod 16) * 16 + c div 4]"
| "sextetsToBytes [a, b] = [a * 4 + b div 16]"
| "sextetsToBytes _ = []"

definition decodeBase64Ascii :: "jsstring \<Rightarrow> exn + jsstring" where
  "decodeBase64Ascii s =
     Inr (map (\<lambda>b. if b < 128 then of_nat b else 0xFFFD)
            (sextetsToBytes
               (List.map_filter sextet (takeWhile (\<lambda>c. c \<noteq> 0x3D) s))))"

text \<open>A provider that answers every request with the same response.\<close>

definition fetchAnswer :: "response \<Rightarrow> request \<Rightarrow> exn + response" where
  "fetchAnswer r q = Inr r"

section \<open>Predicates and inputs for the statements\<close>

text \<open>
  White space in normal form: every white-space character is the space U+0020, and no
  white-space character directly follows another.
\<close>

fun wsNormal :: "jsstring \<Rightarrow> bool" where
  "wsNormal [] = True"
| "wsNormal [c] = (isWhiteSpace c \<longrightarrow> c = 0x20)"
| "wsNormal (c # d # cs) =
     ((isWhiteSpace c \<longrightarrow> c = 0x20 \<and> \<not> isWhiteSpace d) \<and> wsNormal (d # cs))"

text \<open>
  The value of \<open>key\<close> in \<open>source\<close> is the string \<open>v\<close>, and \<open>v\<close> has a character that
  is not white space.
\<close>

definition candidate :: "json \<Rightarrow> jsstring \<Rightarrow> jsstring \<Rightarrow> bool" where
  "candidate source key v \<longleftrightarrow>
     getProp source key = Inr (Some (JStr v)) \<and> (\<exists>c\<in>set v. \<not> isWhiteSpace c)"

text \<open>
  The status mapping in the words of the specification, on the lower-cased raw status:
  prefix \<open>complete\<close> gives \<open>completed\<close>; prefix \<open>fail\<close> or exactly \<open>error\<close> gives
  \<open>failed\<close>; anything else gives \<open>queued\<close>.
\<close>

definition specStatus :: "jsstring \<Rightarrow> ViduVideoStatus" where
  "specStatus n =
     (if prefix (js ''complete'') n then completed
      else if prefix (js ''fail'') n \<or> n = js ''error'' then failed
      else queued)"

text \<open>A prompt with runs of spaces, a line separator, a CRLF and a lone CR.\<close>

definition example_prompt :: jsstring where
  "example_prompt = js ''  a  b '' @ [0x2028, 0x0D, 0x0A, 0x0D] @ js ''c  ''"

text \<open>A configured environment, a request for it, and provider responses.\<close>

definition example_env :: env where
  "example_env = \<lparr>VIDU_API_KEY = Some (js ''k''), VIDU_API_URL = None\<rparr>"

definition example_options :: CreateViduVideoOptions where
  "example_options =
     \<lparr>opt_prompt = js ''a cat'', opt_durationSeconds = Finite 4,
      opt_aspectRatio = js ''16:9'', opt_style = None, opt_referenceImageUrl = None\<rparr>"

definition example_request :: request where
  "example_request =
     \<lparr>request_url = js ''https://api.vidu.com/v1/videos'',
      request_method = ''POST'',
      request_headers =
        [(''Content-Type'', js ''application/json''), (''Authorization'', js ''Bearer k'')],
      request_body =
        JObj [(js ''prompt'', JStr (js ''a cat'')),
              (js ''duration'', JNum (Finite 4)),
              (js ''aspect_ratio'', JStr (js ''16:9''))]\<rparr>"

definition okResponse :: "json option \<Rightarrow> response" where
  "okResponse b =
     \<lparr>response_status = 200, response_statusText = js ''OK'', response_json = b\<rparr>"

definition errorResponse :: "nat \<Rightarrow> json option \<Rightarrow> response" where
  "errorResponse code b =
     \<lparr>response_status = code, response_statusText = js ''Error'', response_json = b\<rparr>"


text \<open>
  An input with both prompt fields: \<open>promptBase64\<close> is the base64 text of
  \<open>a  cat\<close> (with two spaces).
\<close>

definition example_input :: GenerateViduVideoInput where
  "example_input =
     \<lparr>prompt = Some (js ''a dog''), promptBase64 = Some (js ''YSAgY2F0''),
      durationSeconds = None, aspectRatio = None, style = None, referenceImageUrl = None\<rparr>"

section \<open>Prompt sanitisation\<close>

lemma isWhiteSpace_literals:
  "isWhiteSpace 0x20" "isWhiteSpace 0x0A" "isWhiteSpace 0x0D"
  "isWhiteSpace 0x2028" "isWhiteSpace 0x2029"
  by (simp_all add: isWhiteSpace_def)

lemma wsNormal_Cons_plain: "\<not> isWhiteSpace c \<Longrightarrow> wsNormal (c # t) = wsNormal t"
  by (cases t) simp_all

lemma wsNormal_collapseWhitespace: "wsNormal (collapseWhitespace s)"
proof (induction s rule: collapseWhitespace.induct)
  case 1
  show ?case by simp
next
  case (2 c cs)
  show ?case
  proof (cases "isWhiteSpace c")
    case False
    with 2 show ?thesis by (simp add: wsNormal_Cons_plain)
  next
    case True
    let ?r = "dropWhile isWhiteSpace cs"
    from True 2 have ih: "wsNormal (collapseWhitespace ?r)" by simp
    from True have eq: "collapseWhitespace (c # cs) = 0x20 # collapseWhitespace ?r"
      by simp
    show ?thesis
    proof (cases ?r)
      case Nil
      with eq have "collapseWhitespace (c # cs) = [0x20]"
        by (metis collapseWhitespace.simps(1))
      then show ?thesis by simp
    next
      case (Cons x xs)
      then have "\<not> isWhiteSpace x"
        using hd_dropWhile [of isWhiteSpace cs] by auto
      with Cons have "collapseWhitespace ?r = x # collapseWhitespace xs" by simp
      with ih \<open>\<not> isWhiteSpace x\<close> show ?thesis
        by (simp only: eq) simp
    qed
  qed
qed

lemma collapseWhitespace_wsNormal: "wsNormal t \<Longrightarrow> collapseWhitespace t = t"
  by (induction t rule: wsNormal.induct) auto

lemma wsNormal_append: "wsNormal (xs @ ys) \<Longrightarrow> wsNormal xs \<and> wsNormal ys"
proof (induction xs rule: wsNormal.induct)
  case 1
  then show ?case by simp
next
  case (2 c)
  then show ?case by (cases ys) auto
next
  case (3 c d cs)
  then show ?case by auto
qed

lemma trim_split: "\<exists>a b. s = a @ trim s @ b"
proof -
  let ?u = "dropWhile isWhiteSpace s"
  have "s = takeWhile isWhiteSpace s @ ?u" by simp
  moreover have "?u = trim s @ rev (takeWhile isWhiteSpace (rev ?u))"
    unfolding trim_def
    by (metis rev_append rev_rev_ident takeWhile_dropWhile_id)
  ultimately show ?thesis by metis
qed

lemma wsNormal_trim: "wsNormal s \<Longrightarrow> wsNormal (trim s)"
  using trim_split [of s] wsNormal_append by metis

lemma set_trim: "set (trim s) \<subseteq> set s"
  using trim_split [of s] by (metis Un_upper1 Un_upper2 set_append subset_trans)

lemma trim_ends:
  assumes "trim s \<noteq> []"
  shows "\<not> isWhiteSpace (hd (trim s))" and "\<not> isWhiteSpace (last (trim s))"
proof -
  let ?u = "dropWhile isWhiteSpace s"
  let ?v = "dropWhile isWhiteSpace (rev ?u)"
  from assms have v: "?v \<noteq> []" by (simp add: trim_def)
  then have "\<not> isWhiteSpace (hd ?v)" by (rule hd_dropWhile)
  with v show "\<not> isWhiteSpace (last (trim s))"
    by (simp add: trim_def last_rev)
  from v have u: "?u \<noteq> []"
    by (metis dropWhile.simps(1) rev.simps(1))
  then have hu: "\<not> isWhiteSpace (hd ?u)" by (rule hd_dropWhile)
  have "?u = trim s @ rev (takeWhile isWhiteSpace (rev ?u))"
    unfolding trim_def
    by (metis rev_append rev_rev_ident takeWhile_dropWhile_id)
  with assms have "hd ?u = hd (trim s)" by (metis hd_append2)
  with hu show "\<not> isWhiteSpace (hd (trim s))" by simp
qed

lemma trim_id:
  assumes "t \<noteq> [] \<longrightarrow> \<not> isWhiteSpace (hd t) \<and> \<not> isWhiteSpace (last t)"
  shows "trim t = t"
proof (cases t)
  case Nil
  then show ?thesis by (simp add: trim_def)
next
  case (Cons x xs)
  with assms have a: "\<not> isWhiteSpace x" and b: "\<not> isWhiteSpace (last t)" by auto
  from a Cons have 1: "dropWhile isWhiteSpace t = t" by simp
  from Cons obtain y ys where r: "rev t = y # ys" by (cases "rev t") auto
  from Cons have "hd (rev t) = last t" by (simp add: hd_rev)
  with r b have "\<not> isWhiteSpace y" by simp
  with r have 2: "dropWhile isWhiteSpace (rev t) = rev t" by simp
  from 1 2 show ?thesis by (simp add: trim_def)
qed

lemma trim_trim: "trim (trim s) = trim s"
  by (rule trim_id) (use trim_ends in blast)

lemma replaceSeparators_id:
  "0x2028 \<notin> set t \<Longrightarrow> 0x2029 \<notin> set t \<Longrightarrow> replaceSeparators t = t"
  unfolding replaceSeparators_def by (induction t) auto

lemma replaceNewlines_id: "0x0A \<notin> set t \<Longrightarrow> replaceNewlines t = t"
  by (induction t rule: replaceNewlines.induct) auto

lemma wsNormal_only_space:
  "wsNormal t \<Longrightarrow> c \<in> set t \<Longrightarrow> isWhiteSpace c \<Longrightarrow> c = 0x20"
  by (induction t rule: wsNormal.induct) auto

lemma wsNormal_no_run:
  "wsNormal t \<Longrightarrow> Suc i < length t \<Longrightarrow> \<not> (isWhiteSpace (t ! i) \<and> isWhiteSpace (t ! Suc i))"
proof (induction t arbitrary: i rule: wsNormal.induct)
  case (3 c d cs)
  then show ?case by (cases i) auto
qed simp_all

lemma trim_nonempty_iff: "trim s \<noteq> [] \<longleftrightarrow> (\<exists>c\<in>set s. \<not> isWhiteSpace c)"
proof
  assume "trim s \<noteq> []"
  then have "hd (trim s) \<in> set (trim s)" "\<not> isWhiteSpace (hd (trim s))"
    using trim_ends by simp_all
  then show "\<exists>c\<in>set s. \<not> isWhiteSpace c" using set_trim by blast
next
  assume "\<exists>c\<in>set s. \<not> isWhiteSpace c"
  then have u: "dropWhile isWhiteSpace s \<noteq> []" by (simp add: dropWhile_eq_Nil_conv)
  then have "\<not> isWhiteSpace (hd (dropWhile isWhiteSpace s))" by (rule hd_dropWhile)
  moreover from u have "hd (dropWhile isWhiteSpace s) \<in> set (rev (dropWhile isWhiteSpace s))" by simp
  ultimately have "dropWhile isWhiteSpace (rev (dropWhile isWhiteSpace s)) \<noteq> []"
    unfolding dropWhile_eq_Nil_conv by blast
  then show "trim s \<noteq> []" by (simp add: trim_def)
qed

lemma cleanPromptForVidu_wsNormal: "wsNormal (cleanPromptForVidu s)"
  unfolding cleanPromptForVidu_def by (rule wsNormal_trim) (rule wsNormal_collapseWhitespace)

lemma example_prompt_clean: "cleanPromptForVidu example_prompt = js ''a b c''"
  by (simp add: example_prompt_def cleanPromptForVidu_def trim_def replaceSeparators_def
      isWhiteSpace_def js_def)

text \<open>
  C5. Prompt sanitisation is idempotent, and for every input string the output of
  \<open>cleanPromptForVidu\<close> contains neither U+2028 nor U+2029, neither LF nor CR, no two
  consecutive spaces, and, when it is not empty, neither starts nor ends with a
  white-space character.
\<close>

theorem cleanPromptForVidu_sanitizes:
  "cleanPromptForVidu (cleanPromptForVidu s) = cleanPromptForVidu s
   \<and> 0x2028 \<notin> set (cleanPromptForVidu s) \<and> 0x2029 \<notin> set (cleanPromptForVidu s)
   \<and> 0x0A \<notin> set (cleanPromptForVidu s) \<and> 0x0D \<notin> set (cleanPromptForVidu s)
   \<and> (\<forall>i. Suc i < length (cleanPromptForVidu s) \<longrightarrow>
          \<not> (cleanPromptForVidu s ! i = 0x20 \<and> cleanPromptForVidu s ! Suc i = 0x20))
   \<and> (cleanPromptForVidu s \<noteq> [] \<longrightarrow>
          \<not> isWhiteSpace (hd (cleanPromptForVidu s))
          \<and> \<not> isWhiteSpace (last (cleanPromptForVidu s)))"
proof -
  let ?t = "cleanPromptForVidu s"
  have n: "wsNormal ?t" by (rule cleanPromptForVidu_wsNormal)
  have only: "\<And>c. c \<in> set ?t \<Longrightarrow> isWhiteSpace c \<Longrightarrow> c = 0x20"
    using n wsNormal_only_space by blast
  have a: "0x2028 \<notin> set ?t" using only [of "0x2028"] isWhiteSpace_literals by auto
  have b: "0x2029 \<notin> set ?t" using only [of "0x2029"] isWhiteSpace_literals by auto
  have c: "0x0A \<notin> set ?t" using only [of "0x0A"] isWhiteSpace_literals by auto
  have d: "0x0D \<notin> set ?t" using only [of "0x0D"] isWhiteSpace_literals by auto
  have ends: "?t \<noteq> [] \<longrightarrow> \<not> isWhiteSpace (hd ?t) \<and> \<not> isWhiteSpace (last ?t)"
    unfolding cleanPromptForVidu_def using trim_ends by blast
  have run: "\<forall>i. Suc i < length ?t \<longrightarrow> \<not> (?t ! i = 0x20 \<and> ?t ! Suc i = 0x20)"
    using wsNormal_no_run [OF n] isWhiteSpace_literals(1) by metis
  have "cleanPromptForVidu ?t = trim (collapseWhitespace ?t)"
    unfolding cleanPromptForVidu_def [of ?t]
    by (simp only: replaceSeparators_id [OF a b] replaceNewlines_id [OF c])
  also have "\<dots> = trim ?t" by (simp only: collapseWhitespace_wsNormal [OF n])
  also have "\<dots> = ?t" by (rule trim_id) (rule ends)
  finally have idem: "cleanPromptForVidu ?t = ?t" .
  from idem a b c d run ends show ?thesis by blast
qed

theorem cleanPromptForVidu_sanitizes_witness:
  "cleanPromptForVidu example_prompt = js ''a b c''
   \<and> cleanPromptForVidu (cleanPromptForVidu example_prompt) = js ''a b c''
   \<and> Suc 1 < length (cleanPromptForVidu example_prompt)
   \<and> \<not> (cleanPromptForVidu example_prompt ! 1 = 0x20
         \<and> cleanPromptForVidu example_prompt ! Suc 1 = 0x20)
   \<and> cleanPromptForVidu example_prompt \<noteq> []
   \<and> \<not> isWhiteSpace (hd (cleanPromptForVidu example_prompt))
   \<and> \<not> isWhiteSpace (last (cleanPromptForVidu example_prompt))"
proof -
  have e: "cleanPromptForVidu example_prompt = js ''a b c''"
    by (rule example_prompt_clean)
  have len: "Suc 1 < length (cleanPromptForVidu example_prompt)"
    by (simp add: e js_def)
  have ne: "cleanPromptForVidu example_prompt \<noteq> []"
    by (simp add: e js_def)
  from cleanPromptForVidu_sanitizes [of example_prompt] len ne e show ?thesis
    by metis
qed

section \<open>Duration clamping\<close>

text \<open>
  C6. \<open>clampDuration\<close> returns the default 4 for an absent value, for NaN and for the
  two infinities; a finite value is clamped into the closed interval from 1 to 8: below
  1 it becomes 1, above 8 it becomes 8, and inside the interval it is returned as it is.
  In particular \<open>clamp(undefined) = 4\<close>, \<open>clamp(NaN) = 4\<close>, \<open>clamp(0) = 1\<close>,
  \<open>clamp(8.5) = 8\<close> and \<open>clamp(4) = 4\<close>, with the constants MIN = 1, MAX = 8 and
  default = 4.
\<close>

theorem clampDuration_spec:
  "clampDuration None = Finite 4
   \<and> clampDuration (Some NaN) = Finite 4
   \<and> clampDuration (Some Infinity) = Finite 4
   \<and> clampDuration (Some NegInfinity) = Finite 4
   \<and> (v < 1 \<longrightarrow> clampDuration (Some (Finite v)) = Finite 1)
   \<and> (1 \<le> v \<and> v \<le> 8 \<longrightarrow> clampDuration (Some (Finite v)) = Finite v)
   \<and> (8 < v \<longrightarrow> clampDuration (Some (Finite v)) = Finite 8)
   \<and> (\<exists>w. clampDuration (Some (Finite v)) = Finite w \<and> 1 \<le> w \<and> w \<le> 8)
   \<and> clampDuration (Some (Finite 0)) = Finite 1
   \<and> clampDuration (Some (Finite (17 / 2))) = Finite 8
   \<and> clampDuration (Some (Finite 4)) = Finite 4
   \<and> MIN_DURATION_SECONDS = Finite 1 \<and> MAX_DURATION_SECONDS = Finite 8
   \<and> DEFAULT_DURATION_SECONDS = Finite 4"
  by (simp add: clampDuration_def Number_isNaN_def Number_isFinite_def
      MIN_DURATION_SECONDS_def MAX_DURATION_SECONDS_def DEFAULT_DURATION_SECONDS_def)

theorem clampDuration_spec_witness:
  "(1/2 :: rat) < 1 \<and> clampDuration (Some (Finite (1/2))) = Finite 1
   \<and> (1 :: rat) \<le> 5/2 \<and> (5/2 :: rat) \<le> 8 \<and> clampDuration (Some (Finite (5/2))) = Finite (5/2)
   \<and> (8 :: rat) < 17/2 \<and> clampDuration (Some (Finite (17/2))) = Finite 8"
  using clampDuration_spec [of "1/2"] clampDuration_spec [of "5/2"]
    clampDuration_spec [of "17/2"]
  by simp

section \<open>Field extraction\<close>

lemma getProp_total: "source \<noteq> JNull \<Longrightarrow> \<exists>v. getProp source key = Inr v"
  by (cases source) simp_all

lemma extractString_total: "source \<noteq> JNull \<Longrightarrow> \<exists>s. extractString source keys = Inr s"
proof (induction keys)
  case Nil
  show ?case by simp
next
  case (Cons key keys)
  from Cons.prems obtain v where "getProp source key = Inr v"
    using getProp_total by blast
  with Cons show ?case
    by (auto split: option.splits json.splits)
qed

lemma extractString_hit:
  "candidate source key v \<Longrightarrow> extractString source (key # keys) = Inr v"
  using trim_nonempty_iff [of v] by (simp add: candidate_def)

lemma extractString_miss:
  assumes "source \<noteq> JNull" and "\<forall>w. \<not> candidate source key w"
  shows "extractString source (key # keys) = extractString source keys"
proof -
  from assms(1) obtain x where g: "getProp source key = Inr x"
    using getProp_total by blast
  show ?thesis
  proof (cases x)
    case None
    with g show ?thesis by simp
  next
    case (Some j)
    show ?thesis
    proof (cases j)
      case (JStr v)
      with g Some assms(2) have "\<not> (\<exists>c\<in>set v. \<not> isWhiteSpace c)"
        by (simp add: candidate_def)
      then have "trim v = []" using trim_nonempty_iff [of v] by blast
      with g Some JStr show ?thesis by simp
    qed (use g Some in simp_all)
  qed
qed

lemma extractString_skips:
  assumes "source \<noteq> JNull" and "\<forall>k\<in>set pre. \<forall>w. \<not> candidate source k w"
  shows "extractString source (pre @ keys) = extractString source keys"
  using assms(2)
proof (induction pre)
  case Nil
  show ?case by simp
next
  case (Cons k pre)
  then show ?case using extractString_miss [OF assms(1), of k] by simp
qed

lemma extractString_first:
  assumes "source \<noteq> JNull" and "\<forall>k\<in>set pre. \<forall>w. \<not> candidate source k w"
    and "candidate source key v"
  shows "extractString source (pre @ key # post) = Inr v"
  using extractString_skips [OF assms(1,2)] extractString_hit [OF assms(3)] by simp

lemma extractString_none:
  assumes "source \<noteq> JNull" and "\<forall>k\<in>set keys. \<forall>w. \<not> candidate source k w"
  shows "extractString source keys = Inr []"
  using extractString_skips [OF assms, of "[]"] by simp

lemma candidate_nonempty: "candidate source key v \<Longrightarrow> v \<noteq> []"
  by (auto simp: candidate_def)

lemma extractString_empty_iff:
  assumes "source \<noteq> JNull"
  shows "extractString source keys = Inr [] \<longleftrightarrow> (\<forall>k\<in>set keys. \<forall>w. \<not> candidate source k w)"
proof
  assume r: "extractString source keys = Inr []"
  show "\<forall>k\<in>set keys. \<forall>w. \<not> candidate source k w"
  proof (rule ccontr)
    assume "\<not> (\<forall>k\<in>set keys. \<forall>w. \<not> candidate source k w)"
    then have "\<exists>k\<in>set keys. \<exists>w. candidate source k w" by blast
    then obtain pre k post where s: "keys = pre @ k # post"
      and c: "\<exists>w. candidate source k w"
      and n: "\<forall>k'\<in>set pre. \<not> (\<exists>w. candidate source k' w)"
      using split_list_first_prop [of keys "\<lambda>k. \<exists>w. candidate source k w"] by blast
    from c obtain w where w: "candidate source k w" by blast
    from n have "\<forall>k'\<in>set pre. \<forall>w. \<not> candidate source k' w" by blast
    from extractString_first [OF assms this w] s have "extractString source keys = Inr w"
      by simp
    with r candidate_nonempty [OF w] show False by simp
  qed
next
  assume "\<forall>k\<in>set keys. \<forall>w. \<not> candidate source k w"
  then show "extractString source keys = Inr []" by (rule extractString_none [OF assms])
qed

lemma extractString_single:
  assumes "source \<noteq> JNull"
  shows "(candidate source key v \<longrightarrow> extractString source [key] = Inr v)
       \<and> ((\<forall>w. \<not> candidate source key w) \<longrightarrow> extractString source [key] = Inr [])"
  using extractString_hit [of source key v "[]"] extractString_none [OF assms, of "[key]"]
  by simp

section \<open>The provider client\<close>

lemma parsed_not_null: "parsed responseBody \<noteq> JNull"
  by (simp add: parsed_def split: option.splits json.splits)

lemma createViduVideo_no_key:
  "VIDU_API_KEY environment = None \<or> VIDU_API_KEY environment = Some [] \<Longrightarrow>
   createViduVideo lc environment fetch options =
     (Inl (Error ''VIDU_API_KEY is not set in the environment''), no_effects)"
  by (auto simp: createViduVideo_def)

lemma createViduVideo_requests:
  "requests (snd (createViduVideo lc environment fetch options)) =
     (case VIDU_API_KEY environment of
        None \<Rightarrow> []
      | Some apiKey \<Rightarrow>
          if apiKey = [] then []
          else [\<lparr>request_url = endpoint environment,
                 request_method = ''POST'',
                 request_headers =
                   [(''Content-Type'', js ''application/json''),
                    (''Authorization'', js ''Bearer '' @ apiKey)],
                 request_body = JObj (payload options)\<rparr>])"
  unfolding createViduVideo_def Let_def no_effects_def
  by (simp del: extractString.simps split: option.split sum.split)

lemma createViduVideo_failure_path:
  assumes "requests (snd (createViduVideo lc environment fetch options)) = [q]"
    and "fetch q = Inr resp" and "\<not> response_ok resp"
  shows "createViduVideo lc environment fetch options =
     (Inr \<lparr>videoUrl = [], status = failed, previewImageUrl = None, jobId = None,
           rawResponse = response_json resp\<rparr>,
      \<lparr>requests = [q], logged = [(response_status resp, response_statusText resp)]\<rparr>)"
proof -
  from assms(1) obtain apiKey where k: "VIDU_API_KEY environment = Some apiKey" "apiKey \<noteq> []"
    and q: "q = \<lparr>request_url = endpoint environment, request_method = ''POST'',
                 request_headers =
                   [(''Content-Type'', js ''application/json''),
                    (''Authorization'', js ''Bearer '' @ apiKey)],
                 request_body = JObj (payload options)\<rparr>"
    unfolding createViduVideo_requests by (auto split: option.splits if_splits)
  from assms(2) q have f: "fetch \<lparr>request_url = endpoint environment, request_method = ''POST'',
                 request_headers =
                   [(''Content-Type'', js ''application/json''),
                    (''Authorization'', js ''Bearer '' @ apiKey)],
                 request_body = JObj (payload options)\<rparr> = Inr resp" by simp
  show ?thesis
    unfolding createViduVideo_def Let_def
    by (simp add: k f assms(3) q del: extractString.simps)
qed

lemma createViduVideo_success_path:
  assumes "requests (snd (createViduVideo lc environment fetch options)) = [q]"
    and "fetch q = Inr resp" and "response_ok resp"
    and "extractString (parsed (response_json resp))
           [js ''video_url'', js ''videoUrl'', js ''output_url'', js ''outputUrl''] = Inr url"
    and "extractString (parsed (response_json resp))
           [js ''preview_image_url'', js ''previewImageUrl'', js ''thumbnail_url'',
            js ''thumbnail''] = Inr preview"
    and "extractString (parsed (response_json resp)) [js ''job_id'', js ''jobId'', js ''id'']
           = Inr job"
    and "extractString (parsed (response_json resp)) [js ''status''] = Inr raw"
  shows "createViduVideo lc environment fetch options =
     (Inr \<lparr>videoUrl = url,
           status =
             (if raw \<noteq> [] then
                (if startsWith (lc raw) (js ''complete'') then completed
                 else if startsWith (lc raw) (js ''fail'') \<or> lc raw = js ''error'' then failed
                 else queued)
              else if url \<noteq> [] then completed else queued),
           previewImageUrl = Some preview, jobId = Some job,
           rawResponse = Some (parsed (response_json resp))\<rparr>,
      \<lparr>requests = [q], logged = []\<rparr>)"
proof -
  from assms(1) obtain apiKey where k: "VIDU_API_KEY environment = Some apiKey" "apiKey \<noteq> []"
    and q: "q = \<lparr>request_url = endpoint environment, request_method = ''POST'',
                 request_headers =
                   [(''Content-Type'', js ''application/json''),
                    (''Authorization'', js ''Bearer '' @ apiKey)],
                 request_body = JObj (payload options)\<rparr>"
    unfolding createViduVideo_requests by (auto split: option.splits if_splits)
  from assms(2) q have f: "fetch \<lparr>request_url = endpoint environment, request_method = ''POST'',
                 request_headers =
                   [(''Content-Type'', js ''application/json''),
                    (''Authorization'', js ''Bearer '' @ apiKey)],
                 request_body = JObj (payload options)\<rparr> = Inr resp" by simp
  show ?thesis
    unfolding createViduVideo_def Let_def
    by (simp add: k f assms(3-7) q del: extractString.simps)
qed

lemma candidate_parsed:
  "candidate (parsed responseBody) key v \<longleftrightarrow>
     (\<exists>b. responseBody = Some b \<and> candidate b key v)"
  by (cases responseBody; cases "the responseBody")
     (auto simp: parsed_def candidate_def)

lemma startsWith_prefix: "startsWith s p \<longleftrightarrow> prefix p s"
  unfolding startsWith_def prefix_def
  by (metis append_eq_conv_conj append_take_drop_id)

lemma specStatus_startsWith:
  "specStatus n =
     (if startsWith n (js ''complete'') then completed
      else if startsWith n (js ''fail'') \<or> n = js ''error'' then failed
      else queued)"
  by (simp add: specStatus_def startsWith_prefix)

lemmas example_run_defs =
  createViduVideo_def example_env_def example_options_def example_request_def
  fetchAnswer_def okResponse_def errorResponse_def response_ok_def endpoint_def
  payload_def parsed_def DEFAULT_VIDU_ENDPOINT_def no_effects_def Let_def
  js_def trim_def isWhiteSpace_def toLowerCaseAscii_def startsWith_def

text \<open>
  C9. A call made while \<open>VIDU_API_KEY\<close> is absent from the environment raises the
  configuration error, and no request is handed to \<open>fetch\<close>.
\<close>

theorem createViduVideo_requires_key:
  assumes "VIDU_API_KEY environment = None"
  shows "fst (createViduVideo lc environment fetch options) =
           Inl (Error ''VIDU_API_KEY is not set in the environment'')
       \<and> requests (snd (createViduVideo lc environment fetch options)) = []"
  using assms createViduVideo_no_key [of environment lc fetch options]
  by (simp add: no_effects_def)

theorem createViduVideo_requires_key_witness:
  "VIDU_API_KEY (example_env\<lparr>VIDU_API_KEY := None\<rparr>) = None
   \<and> fst (createViduVideo toLowerCaseAscii (example_env\<lparr>VIDU_API_KEY := None\<rparr>)
            (fetchAnswer (okResponse None)) example_options) =
       Inl (Error ''VIDU_API_KEY is not set in the environment'')
   \<and> requests (snd (createViduVideo toLowerCaseAscii (example_env\<lparr>VIDU_API_KEY := None\<rparr>)
            (fetchAnswer (okResponse None)) example_options)) = []"
proof -
  have h: "VIDU_API_KEY (example_env\<lparr>VIDU_API_KEY := None\<rparr>) = None" by simp
  from createViduVideo_requires_key [OF h] h show ?thesis by blast
qed





lemma example_run_video_url:
  "createViduVideo toLowerCaseAscii example_env
     (fetchAnswer (okResponse (Some (JObj [(js ''video_url'', JStr (js ''https://x/y.mp4''))]))))
     example_options =
   (Inr \<lparr>videoUrl = js ''https://x/y.mp4'', status = completed, previewImageUrl = Some [],
         jobId = Some [],
         rawResponse = Some (JObj [(js ''video_url'', JStr (js ''https://x/y.mp4''))])\<rparr>,
    \<lparr>requests = [example_request], logged = []\<rparr>)"
  by (simp add: example_run_defs)

text \<open>
  C1, as the code has it. When the call has sent its request and the provider answers
  with a 2xx response, the call returns a result whose status is computed as follows,
  for every \<open>toLowerCase\<close>. If the value of the body's \<open>status\<close> key is a string with a
  character that is not white space, the lower-cased string is classified: prefix
  \<open>complete\<close> gives \<open>completed\<close>, prefix \<open>fail\<close> or exactly \<open>error\<close> gives \<open>failed\<close>,
  anything else \<open>queued\<close>. Otherwise (the status is absent, not a string, empty or of
  white space only) the status is \<open>completed\<close> when one of the body's keys \<open>video_url\<close>,
  \<open>videoUrl\<close>, \<open>output_url\<close>, \<open>outputUrl\<close> holds a string with a character that is not
  white space, and \<open>queued\<close> when none of them does.
\<close>

theorem createViduVideo_status_mapping:
  assumes "requests (snd (createViduVideo lc environment fetch options)) = [q]"
    and "fetch q = Inr resp" and "response_ok resp"
  shows "\<exists>r. fst (createViduVideo lc environment fetch options) = Inr r
     \<and> (\<forall>b s. response_json resp = Some b \<and> candidate b (js ''status'') s
            \<longrightarrow> status r = specStatus (lc s))
     \<and> ((\<forall>b s. response_json resp = Some b \<longrightarrow> \<not> candidate b (js ''status'') s)
          \<longrightarrow>
            ((\<exists>k\<in>set [js ''video_url'', js ''videoUrl'', js ''output_url'', js ''outputUrl''].
                \<exists>b v. response_json resp = Some b \<and> candidate b k v)
               \<longrightarrow> status r = completed)
          \<and> ((\<forall>k\<in>set [js ''video_url'', js ''videoUrl'', js ''output_url'', js ''outputUrl''].
                 \<forall>b v. response_json resp = Some b \<longrightarrow> \<not> candidate b k v)
               \<longrightarrow> status r = queued))"
proof -
  let ?body = "parsed (response_json resp)"
  let ?urlKeys = "[js ''video_url'', js ''videoUrl'', js ''output_url'', js ''outputUrl'']"
  have nn: "?body \<noteq> JNull" by (rule parsed_not_null)
  obtain url preview job raw where
    e: "extractString ?body ?urlKeys = Inr url"
       "extractString ?body
           [js ''preview_image_url'', js ''previewImageUrl'', js ''thumbnail_url'',
            js ''thumbnail''] = Inr preview"
       "extractString ?body [js ''job_id'', js ''jobId'', js ''id''] = Inr job"
       "extractString ?body [js ''status''] = Inr raw"
    using extractString_total [OF nn] by meson
  note run = createViduVideo_success_path [OF assms e]
  let ?r = "\<lparr>videoUrl = url,
           status =
             (if raw \<noteq> [] then
                (if startsWith (lc raw) (js ''complete'') then completed
                 else if startsWith (lc raw) (js ''fail'') \<or> lc raw = js ''error'' then failed
                 else queued)
              else if url \<noteq> [] then completed else queued),
           previewImageUrl = Some preview, jobId = Some job,
           rawResponse = Some ?body\<rparr>"
  have r: "fst (createViduVideo lc environment fetch options) = Inr ?r"
    by (simp add: run)
  have "url = [] \<longleftrightarrow> (\<forall>k\<in>set ?urlKeys. \<forall>w. \<not> candidate ?body k w)"
    using extractString_empty_iff [OF nn, of ?urlKeys] e(1) by simp
  also have "\<dots> \<longleftrightarrow> (\<forall>k\<in>set ?urlKeys.
      \<forall>b v. response_json resp = Some b \<longrightarrow> \<not> candidate b k v)"
    unfolding candidate_parsed by blast
  finally have u: "url = [] \<longleftrightarrow> (\<forall>k\<in>set ?urlKeys.
      \<forall>b v. response_json resp = Some b \<longrightarrow> \<not> candidate b k v)" .
  have a: "status ?r = specStatus (lc s)"
    if "response_json resp = Some b" "candidate b (js ''status'') s" for b s
  proof -
    from that have c: "candidate ?body (js ''status'') s"
      by (auto simp: candidate_parsed)
    with extractString_single [OF nn, of "js ''status''" s] e(4) have "raw = s" by simp
    moreover from c have "s \<noteq> []" by (rule candidate_nonempty)
    ultimately show ?thesis by (simp add: specStatus_startsWith)
  qed
  have raw: "raw = []"
    if "\<forall>b s. response_json resp = Some b \<longrightarrow> \<not> candidate b (js ''status'') s"
  proof -
    from that have "\<forall>w. \<not> candidate ?body (js ''status'') w"
      by (auto simp: candidate_parsed)
    with extractString_single [OF nn, of "js ''status''"] e(4) show ?thesis by simp
  qed
  have b: "status ?r = completed"
    if "\<forall>b s. response_json resp = Some b \<longrightarrow> \<not> candidate b (js ''status'') s"
      "\<exists>k\<in>set ?urlKeys. \<exists>b v. response_json resp = Some b \<and> candidate b k v"
  proof -
    from that(2) u have "url \<noteq> []" by blast
    with raw [OF that(1)] show ?thesis by simp
  qed
  have c: "status ?r = queued"
    if "\<forall>b s. response_json resp = Some b \<longrightarrow> \<not> candidate b (js ''status'') s"
      "\<forall>k\<in>set ?urlKeys. \<forall>b v. response_json resp = Some b \<longrightarrow> \<not> candidate b k v"
  proof -
    from that(2) u have "url = []" by blast
    with raw [OF that(1)] show ?thesis by simp
  qed
  from r a b c show ?thesis by blast
qed

lemma example_run_failed_timeout:
  "createViduVideo toLowerCaseAscii example_env
     (fetchAnswer (okResponse (Some (JObj [(js ''status'', JStr (js ''FAILED_TIMEOUT''))]))))
     example_options =
   (Inr \<lparr>videoUrl = [], status = failed, previewImageUrl = Some [], jobId = Some [],
         rawResponse = Some (JObj [(js ''status'', JStr (js ''FAILED_TIMEOUT''))])\<rparr>,
    \<lparr>requests = [example_request], logged = []\<rparr>)"
  by (simp add: example_run_defs)

lemma specStatus_failed_timeout:
  "specStatus (toLowerCaseAscii (js ''FAILED_TIMEOUT'')) = failed"
  by (simp add: specStatus_def toLowerCaseAscii_def js_def)

theorem createViduVideo_status_mapping_witness:
  "requests (snd (createViduVideo toLowerCaseAscii example_env
      (fetchAnswer (okResponse (Some (JObj [(js ''status'', JStr (js ''FAILED_TIMEOUT''))]))))
      example_options)) = [example_request]
   \<and> response_ok (okResponse (Some (JObj [(js ''status'', JStr (js ''FAILED_TIMEOUT''))])))
   \<and> candidate (JObj [(js ''status'', JStr (js ''FAILED_TIMEOUT''))]) (js ''status'')
        (js ''FAILED_TIMEOUT'')
   \<and> (\<exists>r. fst (createViduVideo toLowerCaseAscii example_env
      (fetchAnswer (okResponse (Some (JObj [(js ''status'', JStr (js ''FAILED_TIMEOUT''))]))))
      example_options) = Inr r \<and> status r = failed)
   \<and> requests (snd (createViduVideo toLowerCaseAscii example_env
      (fetchAnswer (okResponse (Some (JObj [(js ''video_url'', JStr (js ''https://x/y.mp4''))]))))
      example_options)) = [example_request]
   \<and> response_ok (okResponse (Some (JObj [(js ''video_url'', JStr (js ''https://x/y.mp4''))])))
   \<and> candidate (JObj [(js ''video_url'', JStr (js ''https://x/y.mp4''))]) (js ''video_url'')
        (js ''https://x/y.mp4'')
   \<and> (\<exists>r. fst (createViduVideo toLowerCaseAscii example_env
      (fetchAnswer (okResponse (Some (JObj [(js ''video_url'', JStr (js ''https://x/y.mp4''))]))))
      example_options) = Inr r \<and> status r = completed)"
proof -
  let ?b = "JObj [(js ''status'', JStr (js ''FAILED_TIMEOUT''))]"
  let ?resp = "okResponse (Some ?b)"
  let ?R = "createViduVideo toLowerCaseAscii example_env (fetchAnswer ?resp) example_options"
  have h1: "requests (snd ?R) = [example_request]"
    by (simp add: example_run_failed_timeout)
  have h2: "fetchAnswer ?resp example_request = Inr ?resp" by (simp add: fetchAnswer_def)
  have h3: "response_ok ?resp" by (simp add: response_ok_def okResponse_def)
  have h4: "response_json ?resp = Some ?b" by (simp add: okResponse_def)
  have h5: "candidate ?b (js ''status'') (js ''FAILED_TIMEOUT'')"
    by (simp add: candidate_def js_def isWhiteSpace_def)
  from createViduVideo_status_mapping [OF h1 h2 h3] obtain r where
    r: "fst ?R = Inr r"
    and s: "\<forall>b s. response_json ?resp = Some b \<and> candidate b (js ''status'') s
            \<longrightarrow> status r = specStatus (toLowerCaseAscii s)"
    by blast
  from s h4 h5 have "status r = specStatus (toLowerCaseAscii (js ''FAILED_TIMEOUT''))"
    by blast
  then have "status r = failed" by (simp only: specStatus_failed_timeout)
  with r have first: "\<exists>r. fst ?R = Inr r \<and> status r = failed" by blast
  let ?b' = "JObj [(js ''video_url'', JStr (js ''https://x/y.mp4''))]"
  let ?resp' = "okResponse (Some ?b')"
  let ?R' = "createViduVideo toLowerCaseAscii example_env (fetchAnswer ?resp') example_options"
  let ?urlKeys = "[js ''video_url'', js ''videoUrl'', js ''output_url'', js ''outputUrl'']"
  have g1: "requests (snd ?R') = [example_request]"
    by (simp add: example_run_video_url)
  have g2: "fetchAnswer ?resp' example_request = Inr ?resp'" by (simp add: fetchAnswer_def)
  have g3: "response_ok ?resp'" by (simp add: response_ok_def okResponse_def)
  have g4: "response_json ?resp' = Some ?b'" by (simp add: okResponse_def)
  have g5: "\<forall>b s. response_json ?resp' = Some b \<longrightarrow> \<not> candidate b (js ''status'') s"
  proof (intro allI impI)
    fix b s
    assume "response_json ?resp' = Some b"
    with g4 have "b = ?b'" by simp
    then show "\<not> candidate b (js ''status'') s" by (simp add: candidate_def js_def)
  qed
  have g6: "candidate ?b' (js ''video_url'') (js ''https://x/y.mp4'')"
    by (simp add: candidate_def js_def isWhiteSpace_def)
  from g4 g6 have g7: "\<exists>k\<in>set ?urlKeys. \<exists>b v. response_json ?resp' = Some b \<and> candidate b k v"
    by (intro bexI [of _ "js ''video_url''"] exI conjI) simp_all
  from createViduVideo_status_mapping [OF g1 g2 g3] obtain r' where
    r': "fst ?R' = Inr r'"
    and t: "(\<forall>b s. response_json ?resp' = Some b \<longrightarrow> \<not> candidate b (js ''status'') s)
          \<longrightarrow>
            ((\<exists>k\<in>set ?urlKeys. \<exists>b v. response_json ?resp' = Some b \<and> candidate b k v)
               \<longrightarrow> status r' = completed)
          \<and> ((\<forall>k\<in>set ?urlKeys. \<forall>b v. response_json ?resp' = Some b \<longrightarrow> \<not> candidate b k v)
               \<longrightarrow> status r' = queued)"
    by blast
  from t g5 g7 have "status r' = completed" by blast
  with r' have second: "\<exists>r. fst ?R' = Inr r \<and> status r = completed" by blast
  from h1 h3 h5 first g1 g3 g6 second show ?thesis by blast
qed

text \<open>
  The 2xx body \<open>{"status": " ", "video_url": "u"}\<close> supplies a status string, which
  lower-cased is neither \<open>error\<close> nor begins with \<open>complete\<close> or \<open>fail\<close>; the result's
  status is \<open>completed\<close>, not \<open>queued\<close>.
\<close>

theorem createViduVideo_blank_status_completed:
  "createViduVideo toLowerCaseAscii example_env
     (fetchAnswer (okResponse (Some (JObj [(js ''status'', JStr (js '' '')),
                                           (js ''video_url'', JStr (js ''u''))]))))
     example_options =
   (Inr \<lparr>videoUrl = js ''u'', status = completed, previewImageUrl = Some [],
         jobId = Some [],
         rawResponse = Some (JObj [(js ''status'', JStr (js '' '')),
                                   (js ''video_url'', JStr (js ''u''))])\<rparr>,
    \<lparr>requests = [example_request], logged = []\<rparr>)
   \<and> getProp (JObj [(js ''status'', JStr (js '' '')), (js ''video_url'', JStr (js ''u''))])
        (js ''status'') = Inr (Some (JStr (js '' '')))
   \<and> specStatus (toLowerCaseAscii (js '' '')) = queued
   \<and> completed \<noteq> queued"
  by (simp add: example_run_defs specStatus_def)

text \<open>
  C3, as the code has it. A result returned for a non-2xx response has an empty
  \<open>videoUrl\<close> and status \<open>failed\<close>. A result returned for a 2xx response has an empty
  \<open>videoUrl\<close> exactly when none of the four URL keys of the body holds a string with a
  character that is not white space; when the body supplies no raw status, that result's
  \<open>videoUrl\<close> is empty exactly when its status is \<open>queued\<close>, and not empty exactly when
  its status is \<open>completed\<close>.
\<close>

theorem createViduVideo_videoUrl_status:
  assumes "requests (snd (createViduVideo lc environment fetch options)) = [q]"
    and "fetch q = Inr resp"
  shows "\<exists>r. fst (createViduVideo lc environment fetch options) = Inr r
     \<and> (\<not> response_ok resp \<longrightarrow> videoUrl r = [] \<and> status r = failed)
     \<and> (response_ok resp \<longrightarrow>
          (videoUrl r = [] \<longleftrightarrow>
             (\<forall>k\<in>set [js ''video_url'', js ''videoUrl'', js ''output_url'', js ''outputUrl''].
                \<forall>b v. response_json resp = Some b \<longrightarrow> \<not> candidate b k v))
          \<and> ((\<forall>b s. response_json resp = Some b \<longrightarrow> \<not> candidate b (js ''status'') s) \<longrightarrow>
                (videoUrl r = [] \<longleftrightarrow> status r = queued)
                \<and> (videoUrl r \<noteq> [] \<longleftrightarrow> status r = completed)))"
proof (cases "response_ok resp")
  case False
  from createViduVideo_failure_path [OF assms False] False show ?thesis by simp
next
  case True
  let ?body = "parsed (response_json resp)"
  let ?urlKeys = "[js ''video_url'', js ''videoUrl'', js ''output_url'', js ''outputUrl'']"
  have nn: "?body \<noteq> JNull" by (rule parsed_not_null)
  obtain url preview job raw where
    e: "extractString ?body ?urlKeys = Inr url"
       "extractString ?body
           [js ''preview_image_url'', js ''previewImageUrl'', js ''thumbnail_url'',
            js ''thumbnail''] = Inr preview"
       "extractString ?body [js ''job_id'', js ''jobId'', js ''id''] = Inr job"
       "extractString ?body [js ''status''] = Inr raw"
    using extractString_total [OF nn] by meson
  note run = createViduVideo_success_path [OF assms True e]
  let ?r = "\<lparr>videoUrl = url,
           status =
             (if raw \<noteq> [] then
                (if startsWith (lc raw) (js ''complete'') then completed
                 else if startsWith (lc raw) (js ''fail'') \<or> lc raw = js ''error'' then failed
                 else queued)
              else if url \<noteq> [] then completed else queued),
           previewImageUrl = Some preview, jobId = Some job,
           rawResponse = Some ?body\<rparr>"
  have r: "fst (createViduVideo lc environment fetch options) = Inr ?r"
    by (simp add: run)
  have "url = [] \<longleftrightarrow> (\<forall>k\<in>set ?urlKeys. \<forall>w. \<not> candidate ?body k w)"
    using extractString_empty_iff [OF nn, of ?urlKeys] e(1) by simp
  also have "\<dots> \<longleftrightarrow> (\<forall>k\<in>set ?urlKeys.
      \<forall>b v. response_json resp = Some b \<longrightarrow> \<not> candidate b k v)"
    unfolding candidate_parsed by blast
  finally have u: "videoUrl ?r = [] \<longleftrightarrow> (\<forall>k\<in>set ?urlKeys.
      \<forall>b v. response_json resp = Some b \<longrightarrow> \<not> candidate b k v)"
    by simp
  have s: "(videoUrl ?r = [] \<longleftrightarrow> status ?r = queued)
           \<and> (videoUrl ?r \<noteq> [] \<longleftrightarrow> status ?r = completed)"
    if "\<forall>b s. response_json resp = Some b \<longrightarrow> \<not> candidate b (js ''status'') s"
  proof -
    from that have "\<forall>w. \<not> candidate ?body (js ''status'') w"
      by (auto simp: candidate_parsed)
    with extractString_single [OF nn, of "js ''status''"] e(4) have "raw = []" by simp
    then show ?thesis by simp
  qed
  from r u s True show ?thesis by blast
qed

theorem createViduVideo_videoUrl_status_witness:
  "requests (snd (createViduVideo toLowerCaseAscii example_env
      (fetchAnswer (okResponse (Some (JObj [(js ''video_url'', JStr (js ''https://x/y.mp4''))]))))
      example_options)) = [example_request]
   \<and> response_ok (okResponse (Some (JObj [(js ''video_url'', JStr (js ''https://x/y.mp4''))])))
   \<and> (\<exists>r. fst (createViduVideo toLowerCaseAscii example_env
      (fetchAnswer (okResponse (Some (JObj [(js ''video_url'', JStr (js ''https://x/y.mp4''))]))))
      example_options) = Inr r \<and> videoUrl r \<noteq> [] \<and> status r = completed)"
proof -
  let ?b = "JObj [(js ''video_url'', JStr (js ''https://x/y.mp4''))]"
  let ?resp = "okResponse (Some ?b)"
  let ?R = "createViduVideo toLowerCaseAscii example_env (fetchAnswer ?resp) example_options"
  have h1: "requests (snd ?R) = [example_request]"
    by (simp add: example_run_video_url)
  have h2: "fetchAnswer ?resp example_request = Inr ?resp" by (simp add: fetchAnswer_def)
  have h3: "response_ok ?resp" by (simp add: response_ok_def okResponse_def)
  have h4: "response_json ?resp = Some ?b" by (simp add: okResponse_def)
  have h5: "\<forall>b s. response_json ?resp = Some b \<longrightarrow> \<not> candidate b (js ''status'') s"
  proof (intro allI impI)
    fix b s
    assume "response_json ?resp = Some b"
    with h4 have "b = ?b" by simp
    then show "\<not> candidate b (js ''status'') s" by (simp add: candidate_def js_def)
  qed
  have h6: "candidate ?b (js ''video_url'') (js ''https://x/y.mp4'')"
    by (simp add: candidate_def js_def isWhiteSpace_def)
  from createViduVideo_videoUrl_status [OF h1 h2] h3 obtain r where
    r: "fst ?R = Inr r"
    and u: "videoUrl r = [] \<longleftrightarrow>
             (\<forall>k\<in>set [js ''video_url'', js ''videoUrl'', js ''output_url'', js ''outputUrl''].
                \<forall>b v. response_json ?resp = Some b \<longrightarrow> \<not> candidate b k v)"
    and s: "(\<forall>b s. response_json ?resp = Some b \<longrightarrow> \<not> candidate b (js ''status'') s) \<longrightarrow>
                (videoUrl r = [] \<longleftrightarrow> status r = queued)
                \<and> (videoUrl r \<noteq> [] \<longleftrightarrow> status r = completed)"
    by blast
  from u h4 h6 have "videoUrl r \<noteq> []" by auto
  with s h5 have "status r = completed" by blast
  with r \<open>videoUrl r \<noteq> []\<close> h1 h3 show ?thesis by blast
qed

text \<open>
  The 2xx body \<open>{"status": "Processing"}\<close>: the result has an empty \<open>videoUrl\<close> and
  the status \<open>queued\<close>, which is not \<open>failed\<close>.
\<close>

theorem createViduVideo_empty_videoUrl_queued:
  "createViduVideo toLowerCaseAscii example_env
     (fetchAnswer (okResponse (Some (JObj [(js ''status'', JStr (js ''Processing''))]))))
     example_options =
   (Inr \<lparr>videoUrl = [], status = queued, previewImageUrl = Some [], jobId = Some [],
         rawResponse = Some (JObj [(js ''status'', JStr (js ''Processing''))])\<rparr>,
    \<lparr>requests = [example_request], logged = []\<rparr>)
   \<and> queued \<noteq> failed"
  by (simp add: example_run_defs)

text \<open>
  C4, as the code has it. For a 2xx response, \<open>rawResponse\<close> is the parsed body, or the
  empty object when the body could not be parsed or is \<open>null\<close>. For a non-2xx response,
  \<open>rawResponse\<close> is the parsed body, or \<open>undefined\<close> when the body could not be parsed.
\<close>

theorem createViduVideo_rawResponse:
  assumes "requests (snd (createViduVideo lc environment fetch options)) = [q]"
    and "fetch q = Inr resp"
  shows "\<exists>r. fst (createViduVideo lc environment fetch options) = Inr r
     \<and> (response_ok resp \<longrightarrow>
          (\<forall>b. response_json resp = Some b \<and> b \<noteq> JNull \<longrightarrow> rawResponse r = Some b)
          \<and> (response_json resp = None \<or> response_json resp = Some JNull
               \<longrightarrow> rawResponse r = Some (JObj [])))
     \<and> (\<not> response_ok resp \<longrightarrow> rawResponse r = response_json resp)"
proof (cases "response_ok resp")
  case False
  from createViduVideo_failure_path [OF assms False] False show ?thesis by simp
next
  case True
  let ?body = "parsed (response_json resp)"
  have nn: "?body \<noteq> JNull" by (rule parsed_not_null)
  obtain url preview job raw where
    e: "extractString ?body
           [js ''video_url'', js ''videoUrl'', js ''output_url'', js ''outputUrl''] = Inr url"
       "extractString ?body
           [js ''preview_image_url'', js ''previewImageUrl'', js ''thumbnail_url'',
            js ''thumbnail''] = Inr preview"
       "extractString ?body [js ''job_id'', js ''jobId'', js ''id''] = Inr job"
       "extractString ?body [js ''status''] = Inr raw"
    using extractString_total [OF nn] by meson
  note run = createViduVideo_success_path [OF assms True e]
  have p1: "\<forall>b. response_json resp = Some b \<and> b \<noteq> JNull \<longrightarrow> ?body = b"
    by (auto simp: parsed_def split: json.splits)
  have p2: "response_json resp = None \<or> response_json resp = Some JNull \<longrightarrow> ?body = JObj []"
    by (auto simp: parsed_def)
  from run p1 p2 True show ?thesis by simp
qed

theorem createViduVideo_rawResponse_witness:
  "requests (snd (createViduVideo toLowerCaseAscii example_env
      (fetchAnswer (okResponse (Some JNull))) example_options)) = [example_request]
   \<and> response_ok (okResponse (Some JNull))
   \<and> response_json (okResponse (Some JNull)) = Some JNull
   \<and> (\<exists>r. fst (createViduVideo toLowerCaseAscii example_env
      (fetchAnswer (okResponse (Some JNull))) example_options) = Inr r
        \<and> rawResponse r = Some (JObj []))"
proof -
  let ?resp = "okResponse (Some JNull)"
  let ?R = "createViduVideo toLowerCaseAscii example_env (fetchAnswer ?resp) example_options"
  have h1: "requests (snd ?R) = [example_request]"
    by (simp add: example_run_defs)
  have h2: "fetchAnswer ?resp example_request = Inr ?resp" by (simp add: fetchAnswer_def)
  have h3: "response_ok ?resp" by (simp add: response_ok_def okResponse_def)
  have h4: "response_json ?resp = Some JNull" by (simp add: okResponse_def)
  from createViduVideo_rawResponse [OF h1 h2] h3 h4 obtain r where
    "fst ?R = Inr r" "rawResponse r = Some (JObj [])"
    by blast
  with h1 h3 h4 show ?thesis by blast
qed

text \<open>
  A 502 response whose body is not JSON: \<open>rawResponse\<close> is \<open>undefined\<close>, not the empty
  object.
\<close>

theorem createViduVideo_rawResponse_undefined:
  "createViduVideo toLowerCaseAscii example_env (fetchAnswer (errorResponse 502 None))
     example_options =
   (Inr \<lparr>videoUrl = [], status = failed, previewImageUrl = None, jobId = None,
         rawResponse = None\<rparr>,
    \<lparr>requests = [example_request], logged = [(502, js ''Error'')]\<rparr>)
   \<and> response_json (errorResponse 502 None) = None
   \<and> None \<noteq> Some (JObj [])"
  by (simp add: example_run_defs)




section \<open>Prompt resolution\<close>

lemma mem_replaceSeparators:
  "c \<in> set t \<Longrightarrow> \<not> isWhiteSpace c \<Longrightarrow> c \<in> set (replaceSeparators t)"
  by (induction t) (auto simp: replaceSeparators_def isWhiteSpace_def)

lemma mem_replaceNewlines:
  "c \<in> set t \<Longrightarrow> \<not> isWhiteSpace c \<Longrightarrow> c \<in> set (replaceNewlines t)"
  by (induction t rule: replaceNewlines.induct) (use isWhiteSpace_literals in auto)

lemma mem_dropWhile: "c \<in> set xs \<Longrightarrow> \<not> P c \<Longrightarrow> c \<in> set (dropWhile P xs)"
  by (induction xs) auto

lemma mem_collapseWhitespace:
  "c \<in> set t \<Longrightarrow> \<not> isWhiteSpace c \<Longrightarrow> c \<in> set (collapseWhitespace t)"
proof (induction t rule: collapseWhitespace.induct)
  case 1
  then show ?case by simp
next
  case (2 d cs)
  show ?case
  proof (cases "isWhiteSpace d")
    case True
    with 2 have "c \<in> set cs" by auto
    then have "c \<in> set (dropWhile isWhiteSpace cs)" using 2(4) by (rule mem_dropWhile)
    with 2 True show ?thesis by simp
  next
    case False
    with 2 show ?thesis by auto
  qed
qed

lemma cleanPromptForVidu_nonempty:
  assumes "\<exists>c\<in>set t. \<not> isWhiteSpace c"
  shows "cleanPromptForVidu t \<noteq> []"
proof -
  from assms obtain c where "c \<in> set t" "\<not> isWhiteSpace c" by blast
  then have "c \<in> set (collapseWhitespace (replaceNewlines (replaceSeparators t)))"
    by (simp add: mem_replaceSeparators mem_replaceNewlines mem_collapseWhitespace)
  with \<open>\<not> isWhiteSpace c\<close> show ?thesis
    unfolding cleanPromptForVidu_def trim_nonempty_iff by blast
qed

lemma trim_length_pos: "0 < length (trim t) \<longleftrightarrow> (\<exists>c\<in>set t. \<not> isWhiteSpace c)"
  using trim_nonempty_iff [of t] by simp

lemma resolvePrompt_decoded:
  assumes "promptBase64 input = Some s" and "s \<noteq> []" and "decode s = Inr t"
    and "\<exists>c\<in>set t. \<not> isWhiteSpace c"
  shows "resolvePrompt decode input = Inr t"
  using assms trim_nonempty_iff [of t]
  by (simp add: resolvePrompt_def Let_def)

text \<open>
  C7. For every non-empty \<open>promptBase64\<close> that decodes to text with a character that is
  not white space, \<open>resolvePrompt\<close> yields the decoded text, whatever the \<open>prompt\<close> field
  holds; \<open>generateViduVideo\<close> then passes the sanitised decoded text to the client as
  the prompt.
\<close>

theorem resolvePrompt_promptBase64:
  assumes "promptBase64 input = Some s" and "s \<noteq> []" and "decode s = Inr t"
    and "\<exists>c\<in>set t. \<not> isWhiteSpace c"
  shows "resolvePrompt decode input = Inr t
       \<and> resolvePrompt decode (input\<lparr>prompt := p\<rparr>) = Inr t
       \<and> cleanPromptForVidu t \<noteq> []
       \<and> (\<exists>opts. opt_prompt opts = cleanPromptForVidu t
             \<and> generateViduVideo decode lc environment fetch input
                 = createViduVideo lc environment fetch opts)"
proof -
  have 1: "resolvePrompt decode input = Inr t"
    using assms by (rule resolvePrompt_decoded)
  have 2: "resolvePrompt decode (input\<lparr>prompt := p\<rparr>) = Inr t"
    using assms by (intro resolvePrompt_decoded [of _ s]) simp_all
  have 3: "cleanPromptForVidu t \<noteq> []"
    using assms(4) by (rule cleanPromptForVidu_nonempty)
  let ?opts = "\<lparr>opt_prompt = cleanPromptForVidu t,
               opt_durationSeconds = clampDuration (durationSeconds input),
               opt_aspectRatio =
                 (case aspectRatio input of None \<Rightarrow> DEFAULT_ASPECT_RATIO | Some a \<Rightarrow> a),
               opt_style =
                 (case style input of
                    None \<Rightarrow> None
                  | Some t \<Rightarrow> if trim t = [] then None else Some (trim t)),
               opt_referenceImageUrl =
                 (case referenceImageUrl input of
                    None \<Rightarrow> None
                  | Some u \<Rightarrow> if trim u = [] then None else Some (trim u))\<rparr>"
  have "generateViduVideo decode lc environment fetch input
          = createViduVideo lc environment fetch ?opts"
    by (simp add: generateViduVideo_def 1 3 Let_def)
  moreover have "opt_prompt ?opts = cleanPromptForVidu t" by simp
  ultimately have 4: "\<exists>opts. opt_prompt opts = cleanPromptForVidu t
             \<and> generateViduVideo decode lc environment fetch input
                 = createViduVideo lc environment fetch opts"
    by blast
  from 1 2 3 4 show ?thesis by blast
qed

lemma decode_example: "decodeBase64Ascii (js ''YSAgY2F0'') = Inr (js ''a  cat'')"
  by (simp add: decodeBase64Ascii_def js_def sextet_def List.map_filter_def)

theorem resolvePrompt_promptBase64_witness:
  "promptBase64 example_input = Some (js ''YSAgY2F0'')
   \<and> js ''YSAgY2F0'' \<noteq> []
   \<and> decodeBase64Ascii (js ''YSAgY2F0'') = Inr (js ''a  cat'')
   \<and> resolvePrompt decodeBase64Ascii example_input = Inr (js ''a  cat'')
   \<and> resolvePrompt decodeBase64Ascii (example_input\<lparr>prompt := None\<rparr>) = Inr (js ''a  cat'')"
proof -
  have h1: "promptBase64 example_input = Some (js ''YSAgY2F0'')"
    by (simp add: example_input_def)
  have h2: "js ''YSAgY2F0'' \<noteq> []" by (simp add: js_def)
  have h3: "decodeBase64Ascii (js ''YSAgY2F0'') = Inr (js ''a  cat'')"
    by (rule decode_example)
  have h4: "\<exists>c\<in>set (js ''a  cat''). \<not> isWhiteSpace c"
    by (simp add: js_def isWhiteSpace_def)
  from resolvePrompt_promptBase64
    [of example_input "js ''YSAgY2F0''" decodeBase64Ascii "js ''a  cat''" None] h1 h2 h3 h4
  show ?thesis
    by blast
qed

lemma isBase64Char_bounds: "isBase64Char c \<Longrightarrow> 0x2B \<le> c \<and> c \<le> 0x7A"
  unfolding isBase64Char_def
proof (elim disjE conjE)
  assume "0x41 \<le> c" "c \<le> 0x5A"
  moreover have "(0x2B::jschar) \<le> 0x41" "(0x5A::jschar) \<le> 0x7A" by simp_all
  ultimately show ?thesis by (meson order_trans)
next
  assume "0x61 \<le> c" "c \<le> 0x7A"
  moreover have "(0x2B::jschar) \<le> 0x61" by simp
  ultimately show ?thesis by (meson order_trans)
next
  assume "0x30 \<le> c" "c \<le> 0x39"
  moreover have "(0x2B::jschar) \<le> 0x30" "(0x39::jschar) \<le> 0x7A" by simp_all
  ultimately show ?thesis by (meson order_trans)
qed simp_all

lemma isBase64Char_not_white:
  assumes "isBase64Char c"
  shows "\<not> isWhiteSpace c"
proof
  assume "isWhiteSpace c"
  from assms have b: "0x2B \<le> c" "c \<le> 0x7A" using isBase64Char_bounds by blast+
  from \<open>isWhiteSpace c\<close> show False
    unfolding isWhiteSpace_def
  proof (elim disjE conjE)
    assume "0x2000 \<le> c"
    from this b(2) have "(0x2000::jschar) \<le> 0x7A" by (rule order_trans)
    then show False by simp
  qed (use b in simp_all)
qed

lemma schema_promptBase64_not_blank:
  assumes "schema_promptBase64 input" and "promptBase64 input = Some b"
  shows "\<exists>c\<in>set b. \<not> isWhiteSpace c"
proof -
  from assms have "b \<noteq> []" "list_all isBase64Char b"
    by (simp_all add: schema_promptBase64_def)
  then have "hd b \<in> set b" "isBase64Char (hd b)"
    by (simp_all add: list_all_iff)
  then show ?thesis using isBase64Char_not_white by blast
qed

text \<open>
  C8. For every input that passes the schema's check of \<open>promptBase64\<close>, if both
  \<open>prompt\<close> and \<open>promptBase64\<close> are absent or blank (empty or of white space only), the
  tool fails with the missing-prompt error and hands no request to \<open>fetch\<close>.
\<close>

theorem generateViduVideo_missing_prompt:
  assumes "schema_promptBase64 input"
    and "promptBase64 input = None
         \<or> (\<exists>b. promptBase64 input = Some b \<and> (\<forall>c\<in>set b. isWhiteSpace c))"
    and "prompt input = None
         \<or> (\<exists>p. prompt input = Some p \<and> (\<forall>c\<in>set p. isWhiteSpace c))"
  shows "generateViduVideo decode lc environment fetch input
           = (Inl (Error ''Provide either promptBase64 or prompt.''), no_effects)
       \<and> requests (snd (generateViduVideo decode lc environment fetch input)) = []"
proof -
  have no64: "promptBase64 input = None"
  proof (rule ccontr)
    assume "promptBase64 input \<noteq> None"
    with assms(2) obtain b where b: "promptBase64 input = Some b" "\<forall>c\<in>set b. isWhiteSpace c"
      by blast
    from schema_promptBase64_not_blank [OF assms(1) b(1)] b(2) show False by blast
  qed
  from assms(3) have r: "resolvePrompt decode input
      = Inl (Error ''Provide either promptBase64 or prompt.'')"
  proof
    assume "prompt input = None"
    with no64 show ?thesis by (simp add: resolvePrompt_def)
  next
    assume "\<exists>p. prompt input = Some p \<and> (\<forall>c\<in>set p. isWhiteSpace c)"
    then obtain p where p: "prompt input = Some p" "\<forall>c\<in>set p. isWhiteSpace c" by blast
    from p(2) have "trim p = []" using trim_nonempty_iff [of p] by blast
    with p(1) no64 show ?thesis by (simp add: resolvePrompt_def)
  qed
  have 1: "generateViduVideo decode lc environment fetch input
            = (Inl (Error ''Provide either promptBase64 or prompt.''), no_effects)"
    by (simp add: generateViduVideo_def r)
  have 2: "requests (snd (generateViduVideo decode lc environment fetch input)) = []"
    by (simp add: generateViduVideo_def r no_effects_def)
  from 1 2 show ?thesis by (rule conjI)
qed

theorem generateViduVideo_missing_prompt_witness:
  "schema_promptBase64 (example_input\<lparr>promptBase64 := None, prompt := Some (js ''   '')\<rparr>)
   \<and> promptBase64 (example_input\<lparr>promptBase64 := None, prompt := Some (js ''   '')\<rparr>) = None
   \<and> generateViduVideo decodeBase64Ascii toLowerCaseAscii example_env
        (fetchAnswer (okResponse None))
        (example_input\<lparr>promptBase64 := None, prompt := Some (js ''   '')\<rparr>)
       = (Inl (Error ''Provide either promptBase64 or prompt.''), no_effects)"
proof -
  let ?i = "example_input\<lparr>promptBase64 := None, prompt := Some (js ''   '')\<rparr>"
  have h0: "schema_promptBase64 ?i" by (simp add: schema_promptBase64_def)
  have h1: "promptBase64 ?i = None" by simp
  then have h1': "promptBase64 ?i = None
         \<or> (\<exists>b. promptBase64 ?i = Some b \<and> (\<forall>c\<in>set b. isWhiteSpace c))"
    by (rule disjI1)
  have "\<exists>p. prompt ?i = Some p \<and> (\<forall>c\<in>set p. isWhiteSpace c)"
    by (simp add: js_def isWhiteSpace_def)
  then have h2: "prompt ?i = None
         \<or> (\<exists>p. prompt ?i = Some p \<and> (\<forall>c\<in>set p. isWhiteSpace c))"
    by (rule disjI2)
  note t = generateViduVideo_missing_prompt
    [of ?i decodeBase64Ascii toLowerCaseAscii example_env "fetchAnswer (okResponse None)",
      OF h0 h1' h2, THEN conjunct1]
  from h0 h1 t show ?thesis by (intro conjI)
qed

end
